theory Spec2Isabelle
  imports Main
begin

section \<open>JavaScript values, errors and the network\<close>

text \<open>
  The background worker handles JSON documents, so a value is one of JavaScript's
  primitive or JSON-shaped values. An object keeps its properties in insertion order
  (an association list whose keys are distinct after \<open>JSON.parse\<close>). A number is
  given by an integer \<open>n\<close> and stands for the number value nearest to \<open>n\<close>; a
  non-integer number is outside this model.
\<close>

datatype jsval =
    Undefined
  | Null
  | JBool bool
  | JNum int
  | JStr string
  | JArr "jsval list"
  | JObj "(string \<times> jsval) list"

text \<open>Every value thrown in the worker is an \<open>Error\<close> object; it carries its message.\<close>

datatype js_error =
    Error string
  | TypeError string
  | SyntaxError string

fun message :: "js_error \<Rightarrow> string" where
  "message (Error m) = m"
| "message (TypeError m) = m"
| "message (SyntaxError m) = m"

text \<open>Decimal rendering of a tab id, as a template literal inserts it.\<close>

definition digit_char :: "nat \<Rightarrow> char" where
  "digit_char d = ''0123456789'' ! d"

fun show_nat :: "nat \<Rightarrow> string" where
  "show_nat n = (if n < 10 then [digit_char n] else show_nat (n div 10) @ [digit_char (n mod 10)])"

declare show_nat.simps [simp del]

definition show_int :: "int \<Rightarrow> string" where
  "show_int i = (if i < 0 then CHR ''-'' # show_nat (nat (- i)) else show_nat (nat i))"

text \<open>
  \<open>Number::toString\<close> on the number value nearest to an integer. Below \<open>2^53\<close>
  every integer is a number value and is printed digit by digit. Above, the integer is
  rounded to 53 significant bits (ties to even), and the digits printed are the fewest
  that still round to that value, the closest such if there is a choice: followed by
  zeros up to 21 digits, in exponent form beyond, \<open>Infinity\<close> from \<open>2^1024\<close> on.
\<close>

function show_pos :: "int \<Rightarrow> string" where
  "show_pos a = (if a < 10 then [digit_char (nat a)]
                 else show_pos (a div 10) @ [digit_char (nat (a mod 10))])"
  by pat_completeness auto
termination
  by (relation "measure nat") auto

declare show_pos.simps [simp del]

function bit_length :: "int \<Rightarrow> nat" where
  "bit_length a = (if a \<le> 0 then 0 else Suc (bit_length (a div 2)))"
  by pat_completeness auto
termination
  by (relation "measure nat") auto

declare bit_length.simps [simp del]

text \<open>
  The 53-bit mantissa and the binary exponent of the number value nearest to \<open>a\<close>,
  for \<open>a\<close> from \<open>2^53\<close> on.
\<close>

definition nearest_double :: "int \<Rightarrow> int \<times> nat" where
  "nearest_double a =
     (let shift = bit_length a - 53;
          ulp = 2 ^ shift;
          q = a div ulp;
          r = a mod ulp;
          mant = (if 2 * r > ulp \<or> (2 * r = ulp \<and> odd q) then q + 1 else q)
      in if mant = 2 ^ 53 then (2 ^ 52, shift + 1) else (mant, shift))"

text \<open>
  Whether the integer \<open>c\<close> rounds to the number value \<open>mant * 2 ^ shift\<close>: it lies
  within half a step of it on either side (the step below a power of two is half as
  wide), the ends included when the mantissa is even.
\<close>

definition rounds_to :: "int \<Rightarrow> nat \<Rightarrow> int \<Rightarrow> bool" where
  "rounds_to mant shift c =
     (let ulp = 2 ^ shift;
          v = mant * ulp;
          lo2 = 2 * v - (if mant = 2 ^ 52 then ulp div 2 else ulp);
          hi2 = 2 * v + ulp
      in (lo2 < 2 * c \<and> 2 * c < hi2) \<or> (even mant \<and> (2 * c = lo2 \<or> 2 * c = hi2)))"

text \<open>The multiples of \<open>10 ^ p\<close> next to the value that round to it.\<close>

definition short_candidates :: "int \<Rightarrow> nat \<Rightarrow> nat \<Rightarrow> int list" where
  "short_candidates mant shift p =
     (let v = mant * 2 ^ shift; c = (v div 10 ^ p) * 10 ^ p
      in filter (rounds_to mant shift) [c, c + 10 ^ p])"

text \<open>
  The significant digits \<open>s\<close> and the number \<open>p\<close> of zeros after them: \<open>p\<close> is
  the largest for which a multiple of \<open>10 ^ p\<close> rounds to the value, and of two such
  multiples the closer one is taken, the one with even \<open>s\<close> on a tie.
\<close>

definition shortest_digits :: "int \<Rightarrow> nat \<Rightarrow> int \<times> nat" where
  "shortest_digits mant shift =
     (let v = mant * 2 ^ shift;
          p = length (takeWhile (\<lambda>q. short_candidates mant shift q \<noteq> []) [1..<400]);
          c = (case short_candidates mant shift p of
                 [x] \<Rightarrow> x
               | [x, y] \<Rightarrow> (if v - x < y - v then x
                             else if y - v < v - x then y
                             else if even (x div 10 ^ p) then x else y)
               | _ \<Rightarrow> v)
      in (c div 10 ^ p, p))"

definition number_text_pos :: "int \<Rightarrow> string" where
  "number_text_pos a =
     (if a < 2 ^ 53 then show_pos a
      else (case nearest_double a of (mant, shift) \<Rightarrow>
        if 972 \<le> shift then ''Infinity''
        else (case shortest_digits mant shift of (s, p) \<Rightarrow>
          (let ds = show_pos s; n = length ds + p
           in if n \<le> 21 then ds @ replicate p CHR ''0''
              else (if length ds = 1 then ds else hd ds # CHR ''.'' # tl ds)
                     @ ''e+'' @ show_pos (int n - 1)))))"

definition number_text :: "int \<Rightarrow> string" where
  "number_text n = (if n < 0 then CHR ''-'' # number_text_pos (- n) else number_text_pos n)"

fun join_comma :: "string list \<Rightarrow> string" where
  "join_comma [] = []"
| "join_comma [s] = s"
| "join_comma (s # t # ss) = s @ CHR '','' # join_comma (t # ss)"

text \<open>\<open>ToString\<close>: what string concatenation and \<open>${...}\<close> make of a value.\<close>

fun to_string :: "jsval \<Rightarrow> string" where
  "to_string Undefined = ''undefined''"
| "to_string Null = ''null''"
| "to_string (JBool b) = (if b then ''true'' else ''false'')"
| "to_string (JNum n) = number_text n"
| "to_string (JStr s) = s"
| "to_string (JArr xs) =
     join_comma (map (\<lambda>x. if x = Undefined \<or> x = Null then [] else to_string x) xs)"
| "to_string (JObj ps) = ''[object Object]''"

text \<open>Truthiness, as \<open>if (v)\<close> and \<open>v || w\<close> test it.\<close>

fun truthy :: "jsval \<Rightarrow> bool" where
  "truthy Undefined = False"
| "truthy Null = False"
| "truthy (JBool b) = b"
| "truthy (JNum n) = (n \<noteq> 0)"
| "truthy (JStr s) = (s \<noteq> [])"
| "truthy (JArr xs) = True"
| "truthy (JObj ps) = True"

text \<open>
  Reading a property \<open>v.name\<close> for one of the names the worker reads
  (\<open>more_items\<close>, \<open>last_assetid\<close>, \<open>assets\<close>, \<open>descriptions\<close> of a page;
  \<open>event\<close>, \<open>data\<close>, \<open>appId\<close>, \<open>contextId\<close> of a message): \<open>undefined\<close> and
  \<open>null\<close> throw a TypeError, an object gives its own property or \<open>undefined\<close>, every
  other value has no such property.
\<close>

fun get_prop :: "jsval \<Rightarrow> string \<Rightarrow> js_error + jsval" where
  "get_prop Undefined name =
     Inl (TypeError (''Cannot read properties of undefined (reading '' @ name @ '')''))"
| "get_prop Null name =
     Inl (TypeError (''Cannot read properties of null (reading '' @ name @ '')''))"
| "get_prop (JObj ps) name = Inr (case map_of ps name of None \<Rightarrow> Undefined | Some v \<Rightarrow> v)"
| "get_prop v name = Inr Undefined"

text \<open>
  Assigning \<open>o.name = v\<close> on an object: an existing property keeps its place, a new
  one goes last.
\<close>

fun update_prop :: "string \<Rightarrow> jsval \<Rightarrow> (string \<times> jsval) list \<Rightarrow> (string \<times> jsval) list" where
  "update_prop name v [] = [(name, v)]"
| "update_prop name v ((k, w) # ps) =
     (if k = name then (name, v) # ps else (k, w) # update_prop name v ps)"

text \<open>
  \<open>v.concat(arg)\<close>: on an array, an array argument is spread and any other argument is
  appended as one element; on a string it is string concatenation; no other value has a
  \<open>concat\<close> method.
\<close>

fun concat_method :: "jsval \<Rightarrow> jsval \<Rightarrow> js_error + jsval" where
  "concat_method Undefined arg =
     Inl (TypeError ''Cannot read properties of undefined (reading concat)'')"
| "concat_method Null arg =
     Inl (TypeError ''Cannot read properties of null (reading concat)'')"
| "concat_method (JArr xs) arg = Inr (JArr (xs @ (case arg of JArr ys \<Rightarrow> ys | _ \<Rightarrow> [arg])))"
| "concat_method (JStr s) arg = Inr (JStr (s @ to_string arg))"
| "concat_method v arg = Inl (TypeError ''concat is not a function'')"

text \<open>
  An HTTP request is its URL and headers. A response carries \<open>ok\<close>, \<open>statusText\<close> and
  what its two body readers give: \<open>text()\<close> and \<open>json()\<close>, either of which may reject.
  \<open>fetch\<close> itself rejects on a network error and resolves on any HTTP status.
\<close>

record request =
  url :: string
  headers :: "(string \<times> string) list"

record response =
  ok :: bool
  statusText :: string
  text_body :: "js_error + string"
  json_body :: "js_error + jsval"

text \<open>
  The remote side answers a request, given the requests issued before it. The worker's
  side of \<open>fetch\<close> appends the request to the log of requests issued.
\<close>

type_synonym remote = "request list \<Rightarrow> request \<Rightarrow> js_error + response"

definition fetch :: "remote \<Rightarrow> request list \<Rightarrow> request \<Rightarrow> request list \<times> (js_error + response)" where
  "fetch srv log req = (log @ [req], srv log req)"

section \<open>Identity Resolver\<close>

text \<open>
  The regular expression \<open><steamID64>(\d{17})<\/steamID64>\<close>: \<open>match_here\<close> tries it
  at the start of the text, \<open>regex_match\<close> at every position from the left, and the
  result is the capture group of the leftmost match.
\<close>

definition is_digit :: "char \<Rightarrow> bool" where
  "is_digit c = (c \<in> set ''0123456789'')"

definition match_here :: "string \<Rightarrow> string option" where
  "match_here s =
     (if take 11 s = ''<steamID64>''
         \<and> length (take 17 (drop 11 s)) = 17
         \<and> list_all is_digit (take 17 (drop 11 s))
         \<and> take 12 (drop 28 s) = ''</steamID64>''
      then Some (take 17 (drop 11 s)) else None)"

fun regex_match :: "string \<Rightarrow> string option" where
  "regex_match [] = match_here []"
| "regex_match (c # cs) =
     (case match_here (c # cs) of Some d \<Rightarrow> Some d | None \<Rightarrow> regex_match cs)"

definition profile_request :: request where
  "profile_request = \<lparr>url = ''https://steamcommunity.com/my?xml=1'', headers = []\<rparr>"

definition getSteamId :: "remote \<Rightarrow> request list \<Rightarrow> request list \<times> (js_error + string option)" where
  "getSteamId srv log =
     (case fetch srv log profile_request of
        (log1, Inl e) \<Rightarrow> (log1, Inl e)
      | (log1, Inr r) \<Rightarrow>
          (case text_body r of
             Inl e \<Rightarrow> (log1, Inl e)
           | Inr profileXML \<Rightarrow> (log1, Inr (regex_match profileXML))))"

text \<open>The spec's words: the document contains the tag around exactly 17 digits.\<close>

definition contains_steamid_pattern :: "string \<Rightarrow> bool" where
  "contains_steamid_pattern s =
     (\<exists>pre d post. s = pre @ ''<steamID64>'' @ d @ ''</steamID64>'' @ post
        \<and> length d = 17 \<and> (\<forall>c \<in> set d. is_digit c))"

section \<open>Inventory Fetcher\<close>

text \<open>
  \<open>steamId\<close> is what \<open>getSteamId\<close> returned: a string or \<open>null\<close>. A template
  literal and \<open>+\<close> on strings both insert \<open>null\<close> as the text \<open>null\<close>. \<open>appId\<close>
  and \<open>contextId\<close> are given as the text the template literal inserts for them.
\<close>

definition id_text :: "string option \<Rightarrow> string" where
  "id_text steamId = (case steamId of None \<Rightarrow> ''null'' | Some s \<Rightarrow> s)"

definition baseFetchUrl :: "string option \<Rightarrow> string \<Rightarrow> string \<Rightarrow> string" where
  "baseFetchUrl steamId appId contextId =
     ''https://steamcommunity.com/inventory/'' @ id_text steamId @ ''/'' @ appId @ ''/'' @ contextId"

definition fetchOptions :: "string option \<Rightarrow> (string \<times> string) list" where
  "fetchOptions steamId =
     [(''Referrer'', ''https://steamcommunity.com/profiles/'' @ id_text steamId @ ''/inventory/''),
      (''Accept'', ''application/json'')]"

definition first_request :: "string option \<Rightarrow> string \<Rightarrow> string \<Rightarrow> request" where
  "first_request steamId appId contextId =
     \<lparr>url = baseFetchUrl steamId appId contextId @ ''?l=english&count=75'',
      headers = fetchOptions steamId\<rparr>"

definition second_request :: "string option \<Rightarrow> string \<Rightarrow> string \<Rightarrow> jsval \<Rightarrow> request" where
  "second_request steamId appId contextId lastAssetId =
     \<lparr>url = baseFetchUrl steamId appId contextId
              @ ''?l=english&count=2000&start_assetid='' @ to_string lastAssetId,
      headers = fetchOptions steamId\<rparr>"

text \<open>
  Assignment \<open>inventory.name = v\<close>. It is reached only behind a truthy
  \<open>inventory.more_items\<close>, so \<open>inventory\<close> is an object there; the other equations
  are never used by \<open>fetchInventory\<close>.
\<close>

fun set_prop :: "jsval \<Rightarrow> string \<Rightarrow> jsval \<Rightarrow> js_error + jsval" where
  "set_prop (JObj ps) name v = Inr (JObj (update_prop name v ps))"
| "set_prop Undefined name v =
     Inl (TypeError (''Cannot set properties of undefined (setting '' @ name @ '')''))"
| "set_prop Null name v =
     Inl (TypeError (''Cannot set properties of null (setting '' @ name @ '')''))"
| "set_prop w name v = Inr w"

text \<open>
  One of the two statements
  \<open>inventory.f = inventory.f.concat(additionalInventory.f || [])\<close>.
\<close>

definition concat_field :: "string \<Rightarrow> jsval \<Rightarrow> jsval \<Rightarrow> js_error + jsval" where
  "concat_field f inventory additionalInventory =
     (case get_prop inventory f of
        Inl e \<Rightarrow> Inl e
      | Inr own \<Rightarrow>
          (if own = Undefined \<or> own = Null then concat_method own Undefined
           else case get_prop additionalInventory f of
                  Inl e \<Rightarrow> Inl e
                | Inr rest \<Rightarrow>
                    (case concat_method own (if truthy rest then rest else JArr []) of
                       Inl e \<Rightarrow> Inl e
                     | Inr joined \<Rightarrow> set_prop inventory f joined)))"

text \<open>
  One of the two statements \<open>inventory.f = additionalInventory.f\<close>.
\<close>

definition copy_field :: "string \<Rightarrow> jsval \<Rightarrow> jsval \<Rightarrow> js_error + jsval" where
  "copy_field f inventory additionalInventory =
     (case get_prop additionalInventory f of
        Inl e \<Rightarrow> Inl e
      | Inr v \<Rightarrow> set_prop inventory f v)"

text \<open>The four statements that combine the first and second fetch results, in order.\<close>

definition combine :: "jsval \<Rightarrow> jsval \<Rightarrow> js_error + jsval" where
  "combine inventory additionalInventory =
     (case concat_field ''assets'' inventory additionalInventory of
        Inl e \<Rightarrow> Inl e
      | Inr inv1 \<Rightarrow>
          (case concat_field ''descriptions'' inv1 additionalInventory of
             Inl e \<Rightarrow> Inl e
           | Inr inv2 \<Rightarrow>
               (case copy_field ''last_assetid'' inv2 additionalInventory of
                  Inl e \<Rightarrow> Inl e
                | Inr inv3 \<Rightarrow> copy_field ''more_items'' inv3 additionalInventory)))"

text \<open>The body of \<open>if (inventory.more_items) { ... }\<close>.\<close>

definition fetchAdditional ::
  "remote \<Rightarrow> request list \<Rightarrow> string option \<Rightarrow> string \<Rightarrow> string \<Rightarrow> jsval
     \<Rightarrow> request list \<times> (js_error + jsval)" where
  "fetchAdditional srv log steamId appId contextId inventory =
     (case get_prop inventory ''last_assetid'' of
        Inl e \<Rightarrow> (log, Inl e)
      | Inr lastAssetId \<Rightarrow>
          (case fetch srv log (second_request steamId appId contextId lastAssetId) of
             (log2, Inl e) \<Rightarrow> (log2, Inl e)
           | (log2, Inr response) \<Rightarrow>
               if \<not> ok response
               then (log2, Inl (Error (''Failed to fetch additional inventory: '' @ statusText response)))
               else (case json_body response of
                       Inl e \<Rightarrow> (log2, Inl e)
                     | Inr additionalInventory \<Rightarrow> (log2, combine inventory additionalInventory))))"

definition fetchInventory ::
  "remote \<Rightarrow> request list \<Rightarrow> string option \<Rightarrow> string \<Rightarrow> string
     \<Rightarrow> request list \<times> (js_error + jsval)" where
  "fetchInventory srv log steamId appId contextId =
     (case fetch srv log (first_request steamId appId contextId) of
        (log1, Inl e) \<Rightarrow> (log1, Inl e)
      | (log1, Inr response) \<Rightarrow>
          if \<not> ok response
          then (log1, Inl (Error (''Failed to fetch inventory: '' @ statusText response)))
          else (case json_body response of
                  Inl e \<Rightarrow> (log1, Inl e)
                | Inr inventory \<Rightarrow>
                    (case get_prop inventory ''more_items'' of
                       Inl e \<Rightarrow> (log1, Inl e)
                     | Inr rest \<Rightarrow>
                         if truthy rest
                         then fetchAdditional srv log1 steamId appId contextId inventory
                         else (log1, Inr inventory))))"

text \<open>
  The sequence a page gives for \<open>assets\<close> or \<open>descriptions\<close>: the elements of the
  array, and the empty sequence when the property is absent.
\<close>

fun page_seq :: "jsval \<Rightarrow> jsval list option" where
  "page_seq Undefined = Some []"
| "page_seq (JArr xs) = Some xs"
| "page_seq v = None"

definition getUserInventory ::
  "remote \<Rightarrow> request list \<Rightarrow> string \<Rightarrow> string \<Rightarrow> request list \<times> (js_error + jsval)" where
  "getUserInventory srv log appId contextId =
     (case getSteamId srv log of
        (log1, Inl e) \<Rightarrow> (log1, Inl e)
      | (log1, Inr steamId) \<Rightarrow> fetchInventory srv log1 steamId appId contextId)"

section \<open>Readiness Handshake\<close>

text \<open>
  The host's tab API: \<open>browser.tabs.sendMessage\<close> resolves with the companion script's
  answer or rejects, \<open>browser.scripting.executeScript\<close> resolves or rejects; both may
  change the host's state \<open>'h\<close>. The worker's calls are logged in order.
\<close>

datatype host_call = SendMessage int | ExecuteScript int

record 'h tabs_api =
  sendMessage :: "'h \<Rightarrow> int \<Rightarrow> 'h \<times> (js_error + jsval)"
  executeScript :: "'h \<Rightarrow> int \<Rightarrow> 'h \<times> (js_error + unit)"

text \<open>
  What the \<open>try\<close> block throws, if anything: the rejection of \<open>sendMessage\<close>, or the
  worker's own error when the answer is \<open>undefined\<close>.
\<close>

definition probe_thrown :: "js_error + jsval \<Rightarrow> js_error option" where
  "probe_thrown answer =
     (case answer of
        Inl error \<Rightarrow> Some error
      | Inr res \<Rightarrow> if res = Undefined then Some (Error ''No response from content script'') else None)"

function ensureContentScript ::
  "'h tabs_api \<Rightarrow> int \<Rightarrow> nat \<Rightarrow> 'h \<times> host_call list
     \<Rightarrow> ('h \<times> host_call list) \<times> (js_error + bool)" where
  "ensureContentScript api tabId attempt (h, calls) =
     (case sendMessage api h tabId of
        (h1, answer) \<Rightarrow>
          (case probe_thrown answer of
             None \<Rightarrow> ((h1, calls @ [SendMessage tabId]), Inr True)
           | Some error \<Rightarrow>
               (case executeScript api h1 tabId of
                  (h2, Inl e) \<Rightarrow> ((h2, calls @ [SendMessage tabId, ExecuteScript tabId]), Inl e)
                | (h2, Inr u) \<Rightarrow>
                    if attempt = 0
                    then ensureContentScript api tabId 1
                           (h2, calls @ [SendMessage tabId, ExecuteScript tabId])
                    else ((h2, calls @ [SendMessage tabId, ExecuteScript tabId]),
                          Inl (Error (''Failed to inject content script into tab '' @ show_int tabId))))))"
  by pat_completeness auto
termination
  by (relation "measure (\<lambda>(api, tabId, attempt, s). 1 - attempt)") auto

declare ensureContentScript.simps [simp del]

text \<open>The number of injection attempts made on a tab, read off the call log.\<close>

definition injections :: "int \<Rightarrow> host_call list \<Rightarrow> nat" where
  "injections tabId calls = length (filter (\<lambda>c. c = ExecuteScript tabId) calls)"

text \<open>The probe fails: it throws or answers \<open>undefined\<close>.\<close>

definition probe_fails :: "js_error + jsval \<Rightarrow> bool" where
  "probe_fails answer = (case answer of Inl e \<Rightarrow> True | Inr res \<Rightarrow> res = Undefined)"

section \<open>Command Dispatcher\<close>

text \<open>
  A settled promise is its rejection or its value, next to the state it left.
  \<open>p.then(f)\<close> runs \<open>f\<close> on a value and passes a rejection on; \<open>p.catch(g)\<close> runs
  \<open>g\<close> on a rejection and passes a value on.
\<close>

definition then_promise ::
  "'s \<times> (js_error + 'a) \<Rightarrow> ('a \<Rightarrow> 's \<Rightarrow> 's \<times> (js_error + 'b)) \<Rightarrow> 's \<times> (js_error + 'b)" where
  "then_promise p f = (case p of (s, Inl e) \<Rightarrow> (s, Inl e) | (s, Inr v) \<Rightarrow> f v s)"

definition catch_promise ::
  "'s \<times> (js_error + 'a) \<Rightarrow> (js_error \<Rightarrow> 's \<Rightarrow> 's \<times> (js_error + 'a)) \<Rightarrow> 's \<times> (js_error + 'a)" where
  "catch_promise p g = (case p of (s, Inl e) \<Rightarrow> g e s | (s, Inr v) \<Rightarrow> (s, Inr v))"

datatype envelope =
    Success jsval
  | Failure string

text \<open>The envelope for a settled command: its payload, or the message of its failure.\<close>

definition envelope_of :: "js_error + jsval \<Rightarrow> envelope" where
  "envelope_of outcome = (case outcome of Inl err \<Rightarrow> Failure (message err) | Inr payload \<Rightarrow> Success payload)"

text \<open>
  Calling \<open>fn()\<close> either throws on the spot or returns a promise. \<open>executeCommand\<close>
  is an \<open>async\<close> function: a throw of \<open>fn()\<close> happens before \<open>.then\<close> and
  \<open>.catch\<close> are attached, so it rejects the promise of \<open>executeCommand\<close> itself and
  \<open>respond\<close> is not called.
\<close>

datatype 'a call_result =
    Throws js_error
  | Returns 'a

definition executeCommand ::
  "('s \<Rightarrow> 's \<times> (js_error + jsval) call_result) \<Rightarrow> (envelope \<Rightarrow> 's \<Rightarrow> 's \<times> (js_error + jsval))
     \<Rightarrow> 's \<Rightarrow> 's \<times> (js_error + jsval)" where
  "executeCommand fn respond s =
     (case fn s of
        (s1, Throws e) \<Rightarrow> (s1, Inl e)
      | (s1, Returns promise) \<Rightarrow>
          catch_promise
            (then_promise (s1, promise) (\<lambda>payload. respond (Success payload)))
            (\<lambda>err. respond (Failure (message err))))"

text \<open>
  The worker's world as the message listener sees it: the HTTP requests issued, the
  envelopes handed to the caller's \<open>respond\<close> callback, the events warned about on the
  console, and the rejections nothing handled.
\<close>

record world =
  requests :: "request list"
  responses :: "envelope list"
  warnings :: "jsval list"
  unhandled :: "js_error list"

text \<open>The caller's \<open>respond\<close> callback delivers the envelope and returns \<open>undefined\<close>.\<close>

definition respond_to_caller :: "envelope \<Rightarrow> world \<Rightarrow> world \<times> (js_error + jsval)" where
  "respond_to_caller env w = (w\<lparr>responses := responses w @ [env]\<rparr>, Inr Undefined)"

text \<open>
  The function \<open>() => getUserInventory(data.appId, data.contextId)\<close> handed to
  \<open>executeCommand\<close>. Reading \<open>data.appId\<close> throws when \<open>data\<close> is \<open>undefined\<close> or
  \<open>null\<close>; otherwise the call returns the promise of \<open>getUserInventory\<close>, which
  inserts the two arguments into its URLs as text.
\<close>

definition inventory_thunk :: "remote \<Rightarrow> jsval \<Rightarrow> world \<Rightarrow> world \<times> (js_error + jsval) call_result" where
  "inventory_thunk srv data w =
     (case get_prop data ''appId'' of
        Inl e \<Rightarrow> (w, Throws e)
      | Inr appId \<Rightarrow>
          (case get_prop data ''contextId'' of
             Inl e \<Rightarrow> (w, Throws e)
           | Inr contextId \<Rightarrow>
               (case getUserInventory srv (requests w) (to_string appId) (to_string contextId) of
                  (log1, r) \<Rightarrow> (w\<lparr>requests := log1\<rparr>, Returns r))))"

text \<open>
  The \<open>browser.runtime.onMessage\<close> listener, on whatever value arrives as the
  message. Destructuring \<open>{ event, data }\<close> throws on \<open>undefined\<close> and \<open>null\<close>. The
  listener does not await the promise of \<open>executeCommand\<close>: a rejection of that
  promise is handled by nothing. Otherwise it returns \<open>true\<close>.
\<close>

definition onMessage :: "remote \<Rightarrow> jsval \<Rightarrow> world \<Rightarrow> world \<times> (js_error + bool)" where
  "onMessage srv msg w =
     (case get_prop msg ''event'' of
        Inl e \<Rightarrow> (w, Inl e)
      | Inr event \<Rightarrow>
          (case get_prop msg ''data'' of
             Inl e \<Rightarrow> (w, Inl e)
           | Inr data \<Rightarrow>
               if event = JStr ''get-inventory''
               then (case executeCommand (inventory_thunk srv data) respond_to_caller w of
                       (w1, Inl e) \<Rightarrow> (w1\<lparr>unhandled := unhandled w1 @ [e]\<rparr>, Inr True)
                     | (w1, Inr v) \<Rightarrow> (w1, Inr True))
               else (w\<lparr>warnings := warnings w @ [event]\<rparr>, Inr True)))"

section \<open>Permission Sync Engine\<close>

text \<open>
  The host's registry of dynamic content scripts, as the WebExtensions scripting API
  documents it: \<open>registerContentScripts\<close> rejects an id that is already registered,
  \<open>updateContentScripts\<close> and \<open>unregisterContentScripts\<close> reject an id that is not, and a
  script must have at least one match pattern. A rejected call changes nothing. The
  worker's calls are logged in order.
\<close>

record content_script =
  script_id :: string
  js :: "string list"
  matches :: "string list"
  runAt :: string

datatype scripting_call =
    GetRegistered "string list"
  | Register "content_script list"
  | Update "content_script list"
  | Unregister "string list"

record scripting =
  registered :: "content_script list"
  api_calls :: "scripting_call list"

definition registered_ids :: "scripting \<Rightarrow> string set" where
  "registered_ids st = script_id ` set (registered st)"

definition getRegisteredContentScripts :: "string list \<Rightarrow> scripting \<Rightarrow> scripting \<times> content_script list" where
  "getRegisteredContentScripts ids st =
     (st\<lparr>api_calls := api_calls st @ [GetRegistered ids]\<rparr>,
      filter (\<lambda>r. script_id r \<in> set ids) (registered st))"

definition registerContentScripts :: "content_script list \<Rightarrow> scripting \<Rightarrow> scripting \<times> (js_error + unit)" where
  "registerContentScripts scripts st =
     (let st1 = st\<lparr>api_calls := api_calls st @ [Register scripts]\<rparr>
      in if list_ex (\<lambda>n. script_id n \<in> registered_ids st) scripts
            \<or> \<not> distinct (map script_id scripts)
         then (st1, Inl (Error ''Duplicate script ID''))
         else if list_ex (\<lambda>n. matches n = []) scripts
         then (st1, Inl (Error ''Script must specify at least one match''))
         else (st1\<lparr>registered := registered st @ scripts\<rparr>, Inr ()))"

definition updateContentScripts :: "content_script list \<Rightarrow> scripting \<Rightarrow> scripting \<times> (js_error + unit)" where
  "updateContentScripts scripts st =
     (let st1 = st\<lparr>api_calls := api_calls st @ [Update scripts]\<rparr>
      in if list_ex (\<lambda>n. script_id n \<notin> registered_ids st) scripts
            \<or> \<not> distinct (map script_id scripts)
         then (st1, Inl (Error ''Nonexistent or duplicate script ID''))
         else if list_ex (\<lambda>n. matches n = []) scripts
         then (st1, Inl (Error ''Script must specify at least one match''))
         else (st1\<lparr>registered :=
                 map (\<lambda>r. case find (\<lambda>n. script_id n = script_id r) scripts of
                             None \<Rightarrow> r | Some n \<Rightarrow> n) (registered st)\<rparr>,
               Inr ()))"

definition unregisterContentScripts :: "string list \<Rightarrow> scripting \<Rightarrow> scripting \<times> (js_error + unit)" where
  "unregisterContentScripts ids st =
     (let st1 = st\<lparr>api_calls := api_calls st @ [Unregister ids]\<rparr>
      in if list_ex (\<lambda>i. i \<notin> registered_ids st) ids
         then (st1, Inl (Error ''Nonexistent script ID''))
         else (st1\<lparr>registered := filter (\<lambda>r. script_id r \<notin> set ids) (registered st)\<rparr>, Inr ()))"

text \<open>A permission event; the listeners read its \<open>origins\<close> only.\<close>

record permissions =
  origins :: "string list"

text \<open>
  \<open>[...new Set(xs)]\<close>: the elements of \<open>xs\<close> in order of first occurrence.
\<close>

definition set_spread :: "string list \<Rightarrow> string list" where
  "set_spread xs = fold (\<lambda>x seen. if x \<in> set seen then seen else seen @ [x]) xs []"

text \<open>\<open>const [activeScript] = ...\<close>: the first element, or \<open>undefined\<close>.\<close>

definition first_of :: "'a list \<Rightarrow> 'a option" where
  "first_of xs = (case xs of [] \<Rightarrow> None | x # rest \<Rightarrow> Some x)"

definition newScript :: "string list \<Rightarrow> content_script" where
  "newScript ms =
     \<lparr>script_id = ''content-script'', js = [''scripts/content-script.js''],
      matches = ms, runAt = ''document_idle''\<rparr>"

definition onAdded :: "permissions \<Rightarrow> scripting \<Rightarrow> scripting \<times> (js_error + unit)" where
  "onAdded perms st =
     (let newOrigins = origins perms
      in if newOrigins = [] then (st, Inr ())
         else (case getRegisteredContentScripts [''content-script''] st of
                 (st1, found) \<Rightarrow>
                   (let activeScript = first_of found;
                        script = newScript (set_spread
                          ((case activeScript of None \<Rightarrow> [] | Some a \<Rightarrow> matches a) @ newOrigins))
                    in if activeScript \<noteq> None
                       then updateContentScripts [script] st1
                       else registerContentScripts [script] st1)))"

text \<open>
  The \<open>for\<close> loop of the removal listener: the active script's matches that the event
  does not remove, in their order.
\<close>

fun keep_origins :: "string list \<Rightarrow> string list \<Rightarrow> string list" where
  "keep_origins removedOrigins [] = []"
| "keep_origins removedOrigins (origin # rest) =
     (if origin \<in> set removedOrigins then keep_origins removedOrigins rest
      else origin # keep_origins removedOrigins rest)"

definition onRemoved :: "permissions \<Rightarrow> scripting \<Rightarrow> scripting \<times> (js_error + unit)" where
  "onRemoved perms st =
     (let removedOrigins = origins perms
      in if removedOrigins = [] then (st, Inr ())
         else (case getRegisteredContentScripts [''content-script''] st of
                 (st1, found) \<Rightarrow>
                   (let activeScript = first_of found;
                        newOrigins = (case activeScript of
                                        None \<Rightarrow> []
                                      | Some a \<Rightarrow> keep_origins removedOrigins (matches a));
                        script = newScript newOrigins
                    in if activeScript \<noteq> None
                       then (if matches script \<noteq> []
                             then updateContentScripts [script] st1
                             else unregisterContentScripts [''content-script''] st1)
                       else if matches script \<noteq> []
                       then registerContentScripts [script] st1
                       else (st1, Inr ()))))"

text \<open>
  The calls a listener added to the log, and the calls that would register or update a
  script with no match pattern.
\<close>

definition empty_match_call :: "scripting_call \<Rightarrow> bool" where
  "empty_match_call c =
     (case c of
        Register scripts \<Rightarrow> list_ex (\<lambda>n. matches n = []) scripts
      | Update scripts \<Rightarrow> list_ex (\<lambda>n. matches n = []) scripts
      | _ \<Rightarrow> False)"

definition new_calls :: "scripting \<Rightarrow> scripting \<Rightarrow> scripting_call list" where
  "new_calls before after = drop (length (api_calls before)) (api_calls after)"

section \<open>Example environments\<close>

text \<open>Concrete remotes, hosts and documents on which the results below are exercised.\<close>

definition text_response :: "string \<Rightarrow> response" where
  "text_response s =
     \<lparr>ok = True, statusText = ''OK'', text_body = Inr s,
      json_body = Inl (SyntaxError ''Unexpected token < in JSON'')\<rparr>"

definition logged_out_remote :: remote where
  "logged_out_remote log req = Inr (text_response ''<html>Sign In</html>'')"

definition json_response :: "jsval \<Rightarrow> response" where
  "json_response v = \<lparr>ok = True, statusText = ''OK'', text_body = Inr [], json_body = Inr v\<rparr>"

definition error_response :: "string \<Rightarrow> response" where
  "error_response status =
     \<lparr>ok = False, statusText = status, text_body = Inr (''<html>'' @ status @ ''</html>''),
      json_body = Inl (SyntaxError ''Unexpected token < in JSON'')\<rparr>"

definition failing_profile_remote :: remote where
  "failing_profile_remote log req = Inr (error_response ''Internal Server Error'')"

definition page_one :: jsval where
  "page_one = JObj [(''assets'', JArr [JStr ''asset-1'', JStr ''asset-2'']),
                    (''descriptions'', JArr [JStr ''description-1'']),
                    (''more_items'', JNum 1),
                    (''last_assetid'', JStr ''2''),
                    (''total_inventory_count'', JNum 3)]"

definition page_two :: jsval where
  "page_two = JObj [(''assets'', JArr [JStr ''asset-3''])]"

definition last_page :: jsval where
  "last_page = JObj [(''assets'', JArr [JStr ''asset-1'']),
                     (''descriptions'', JArr [JStr ''description-1'']),
                     (''total_inventory_count'', JNum 1)]"

definition two_page_remote :: remote where
  "two_page_remote log req =
     (if log = [] then Inr (json_response page_one) else Inr (json_response page_two))"

definition one_page_remote :: remote where
  "one_page_remote log req = Inr (json_response last_page)"

definition restricted_tab_api :: "unit tabs_api" where
  "restricted_tab_api =
     \<lparr>sendMessage = (\<lambda>h tabId. (h, Inl (Error ''Could not establish connection. Receiving end does not exist.''))),
      executeScript = (\<lambda>h tabId. (h, Inl (Error ''Cannot access contents of the page'')))\<rparr>"

definition deaf_tab_api :: "unit tabs_api" where
  "deaf_tab_api =
     \<lparr>sendMessage = (\<lambda>h tabId. (h, Inl (Error ''Could not establish connection. Receiving end does not exist.''))),
      executeScript = (\<lambda>h tabId. (h, Inr ()))\<rparr>"

definition ready_tab_api :: "unit tabs_api" where
  "ready_tab_api =
     \<lparr>sendMessage = (\<lambda>h tabId. (h, Inr (JObj []))),
      executeScript = (\<lambda>h tabId. (h, Inr ()))\<rparr>"

definition silent_tab_api :: "unit tabs_api" where
  "silent_tab_api =
     \<lparr>sendMessage = (\<lambda>h tabId. (h, Inr Undefined)),
      executeScript = (\<lambda>h tabId. (h, Inr ()))\<rparr>"

definition get_inventory_msg :: jsval where
  "get_inventory_msg =
     JObj [(''event'', JStr ''get-inventory''),
           (''data'', JObj [(''appId'', JNum 730), (''contextId'', JNum 2)])]"

definition no_data_msg :: jsval where
  "no_data_msg = JObj [(''event'', JStr ''get-inventory'')]"

definition fresh_world :: world where
  "fresh_world = \<lparr>requests = [], responses = [], warnings = [], unhandled = []\<rparr>"

definition no_registration :: scripting where
  "no_registration = \<lparr>registered = [], api_calls = []\<rparr>"

definition one_origin_registration :: scripting where
  "one_origin_registration = \<lparr>registered = [newScript [''https://a.com/*'']], api_calls = []\<rparr>"

section \<open>Results: Identity Resolver\<close>

text \<open>
  The matcher agrees with the spec's wording of the pattern: it finds nothing exactly
  when the document does not contain the tag around 17 digits.
\<close>

lemma match_here_SomeD:
  assumes "match_here s = Some d"
  shows "s = ''<steamID64>'' @ d @ ''</steamID64>'' @ drop 40 s"
    and "length d = 17" and "list_all is_digit d"
proof -
  from assms have a: "take 11 s = ''<steamID64>''" and b: "take 17 (drop 11 s) = d"
    and l: "length (take 17 (drop 11 s)) = 17" and g: "list_all is_digit (take 17 (drop 11 s))"
    and c: "take 12 (drop 28 s) = ''</steamID64>''"
    by (auto simp: match_here_def split: if_splits)
  have 1: "take 11 s @ drop 11 s = s" by (rule append_take_drop_id)
  have 2: "take 17 (drop 11 s) @ drop 17 (drop 11 s) = drop 11 s" by (rule append_take_drop_id)
  have 3: "take 12 (drop 28 s) @ drop 12 (drop 28 s) = drop 28 s" by (rule append_take_drop_id)
  have 4: "drop 17 (drop 11 s) = drop 28 s" and 5: "drop 12 (drop 28 s) = drop 40 s" by simp_all
  have "s = take 11 s @ take 17 (drop 11 s) @ take 12 (drop 28 s) @ drop 40 s"
    using 1 2 3 4 5 by metis
  then show "s = ''<steamID64>'' @ d @ ''</steamID64>'' @ drop 40 s"
    using a b c by simp
  show "length d = 17" using l b by simp
  show "list_all is_digit d" using g b by simp
qed

lemma match_here_pattern:
  assumes "length d = 17" "list_all is_digit d"
  shows "match_here (''<steamID64>'' @ d @ ''</steamID64>'' @ post) = Some d"
  using assms by (simp add: match_here_def)

lemma regex_match_Some_contains:
  "regex_match s = Some d \<Longrightarrow> contains_steamid_pattern s"
proof (induction s)
  case Nil
  then show ?case by (simp add: match_here_def)
next
  case (Cons c cs)
  show ?case
  proof (cases "match_here (c # cs)")
    case None
    with Cons have "contains_steamid_pattern cs" by simp
    then obtain pre d' post where "cs = pre @ ''<steamID64>'' @ d' @ ''</steamID64>'' @ post"
      "length d' = 17" "\<forall>x \<in> set d'. is_digit x"
      unfolding contains_steamid_pattern_def by blast
    then have "c # cs = (c # pre) @ ''<steamID64>'' @ d' @ ''</steamID64>'' @ post" by simp
    then show ?thesis unfolding contains_steamid_pattern_def
      using \<open>length d' = 17\<close> \<open>\<forall>x \<in> set d'. is_digit x\<close> by blast
  next
    case (Some e)
    from match_here_SomeD[OF Some]
    have "c # cs = [] @ ''<steamID64>'' @ e @ ''</steamID64>'' @ drop 40 (c # cs)"
      "length e = 17" "\<forall>x \<in> set e. is_digit x"
      by (simp_all add: list_all_iff)
    then show ?thesis unfolding contains_steamid_pattern_def by blast
  qed
qed

lemma contains_regex_match:
  assumes "length d = 17" "list_all is_digit d"
  shows "regex_match (pre @ ''<steamID64>'' @ d @ ''</steamID64>'' @ post) \<noteq> None"
proof (induction pre)
  case Nil
  have "regex_match (''<steamID64>'' @ d @ ''</steamID64>'' @ post) = Some d"
    using match_here_pattern[OF assms, of post] by simp
  then show ?case by simp
next
  case (Cons a pre)
  then show ?case by (simp split: option.splits)
qed

lemma regex_match_None_iff: "regex_match s = None \<longleftrightarrow> \<not> contains_steamid_pattern s"
proof
  assume "regex_match s = None"
  show "\<not> contains_steamid_pattern s"
  proof
    assume "contains_steamid_pattern s"
    then obtain pre d post where "s = pre @ ''<steamID64>'' @ d @ ''</steamID64>'' @ post"
      "length d = 17" "\<forall>x \<in> set d. is_digit x"
      unfolding contains_steamid_pattern_def by blast
    with contains_regex_match[of d pre post] \<open>regex_match s = None\<close>
    show False by (simp add: list_all_iff)
  qed
next
  assume "\<not> contains_steamid_pattern s"
  then show "regex_match s = None"
    using regex_match_Some_contains by (cases "regex_match s") auto
qed

text \<open>
  C6. When the profile request is answered with a document whose text does not contain
  \<open><steamID64>\<close>, 17 digits, \<open></steamID64>\<close>, \<open>getSteamId\<close> returns \<open>null\<close>: it
  resolves, and does not throw.
\<close>

theorem getSteamId_null_without_pattern:
  assumes "srv log profile_request = Inr r"
    and "text_body r = Inr body"
    and "\<not> contains_steamid_pattern body"
  shows "getSteamId srv log = (log @ [profile_request], Inr None)"
  using assms by (simp add: getSteamId_def fetch_def regex_match_None_iff)

theorem getSteamId_null_without_pattern_witness:
  "\<not> contains_steamid_pattern ''<html>Sign In</html>''
   \<and> getSteamId logged_out_remote [] = ([profile_request], Inr None)"
proof -
  have none: "regex_match ''<html>Sign In</html>'' = None"
    by (simp add: match_here_def)
  then have absent: "\<not> contains_steamid_pattern ''<html>Sign In</html>''"
    using regex_match_None_iff by blast
  have "logged_out_remote [] profile_request = Inr (text_response ''<html>Sign In</html>'')"
    by (simp add: logged_out_remote_def)
  moreover have "text_body (text_response ''<html>Sign In</html>'') = Inr ''<html>Sign In</html>''"
    by (simp add: text_response_def)
  ultimately show ?thesis
    using getSteamId_null_without_pattern [of logged_out_remote "[]" _ "''<html>Sign In</html>''"] absent
    by simp
qed

text \<open>
  A network error rejects \<open>fetch\<close> and \<open>getSteamId\<close> with it. An HTTP status is not
  looked at: whatever the status, the text of the answer is matched.
\<close>

lemma getSteamId_network_error:
  "srv log profile_request = Inl e \<Longrightarrow> getSteamId srv log = (log @ [profile_request], Inl e)"
  by (simp add: getSteamId_def fetch_def)

lemma getSteamId_any_status:
  "srv log profile_request = Inr r \<Longrightarrow> text_body r = Inr body
     \<Longrightarrow> getSteamId srv log = (log @ [profile_request], Inr (regex_match body))"
  by (simp add: getSteamId_def fetch_def)

text \<open>
  C7. The profile request answered with HTTP 500: \<open>fetch\<close> resolves, \<open>ok\<close> is false,
  and \<open>getSteamId\<close> returns \<open>null\<close> to its caller; no error is propagated.
\<close>

theorem getSteamId_non_2xx_returns_value:
  "failing_profile_remote [] profile_request = Inr (error_response ''Internal Server Error'')
   \<and> ok (error_response ''Internal Server Error'') = False
   \<and> getSteamId failing_profile_remote [] = ([profile_request], Inr None)"
  by (simp add: failing_profile_remote_def error_response_def getSteamId_def fetch_def match_here_def)

section \<open>Results: Inventory Fetcher\<close>

lemma map_of_update_prop:
  "map_of (update_prop k v ps) k' = (if k' = k then Some v else map_of ps k')"
  by (induction ps) auto

lemma get_prop_truthy_obj:
  assumes "get_prop v name = Inr m" "truthy m"
  shows "\<exists>ps. v = JObj ps"
  using assms by (cases v) auto

lemma fetchInventory_first_request:
  "\<exists>rest. fst (fetchInventory srv log sid a c) = log @ first_request sid a c # rest"
  by (auto simp: fetchInventory_def fetchAdditional_def fetch_def split: sum.splits)

text \<open>
  C5. When page 1 is answered successfully and its \<open>more_items\<close> is false (or any
  other falsy value, an absent property included), \<open>fetchInventory\<close> issues exactly one
  request, the first one, and returns the page-1 document as it was parsed.
\<close>

theorem fetchInventory_single_page:
  assumes "srv log (first_request sid a c) = Inr r"
    and "ok r"
    and "json_body r = Inr inventory"
    and "get_prop inventory ''more_items'' = Inr m"
    and "\<not> truthy m"
  shows "fetchInventory srv log sid a c = (log @ [first_request sid a c], Inr inventory)"
  using assms by (simp add: fetchInventory_def fetch_def)

theorem fetchInventory_single_page_witness:
  "fetchInventory one_page_remote [] (Some ''76561198000000001'') ''730'' ''2''
     = ([first_request (Some ''76561198000000001'') ''730'' ''2''], Inr last_page)"
proof -
  have "one_page_remote [] (first_request (Some ''76561198000000001'') ''730'' ''2'') = Inr (json_response last_page)"
    by (simp add: one_page_remote_def)
  moreover have "ok (json_response last_page)" "json_body (json_response last_page) = Inr last_page"
    by (simp_all add: json_response_def)
  moreover have "get_prop last_page ''more_items'' = Inr Undefined"
    by (simp add: last_page_def)
  moreover have "\<not> truthy Undefined" by simp
  ultimately show ?thesis
    using fetchInventory_single_page [of one_page_remote "[]" "Some ''76561198000000001''" "''730''" "''2''"
        "json_response last_page" last_page Undefined]
    by simp
qed

lemma concat_field_arrays:
  assumes "map_of ps f = Some (JArr xs)"
    and "page_seq (case map_of qs f of None \<Rightarrow> Undefined | Some v \<Rightarrow> v) = Some ys"
  shows "concat_field f (JObj ps) (JObj qs) = Inr (JObj (update_prop f (JArr (xs @ ys)) ps))"
  using assms
  by (auto simp: concat_field_def split: option.splits jsval.splits)

lemma copy_field_obj:
  "copy_field f (JObj ps) (JObj qs) =
     Inr (JObj (update_prop f (case map_of qs f of None \<Rightarrow> Undefined | Some v \<Rightarrow> v) ps))"
  by (simp add: copy_field_def)


lemma combine_pages:
  assumes "map_of p1 ''assets'' = Some (JArr a1)"
    and "map_of p1 ''descriptions'' = Some (JArr d1)"
    and "page_seq (case map_of p2 ''assets'' of None \<Rightarrow> Undefined | Some v \<Rightarrow> v) = Some a2"
    and "page_seq (case map_of p2 ''descriptions'' of None \<Rightarrow> Undefined | Some v \<Rightarrow> v) = Some d2"
  shows "combine (JObj p1) (JObj p2) =
     Inr (JObj (update_prop ''more_items'' (case map_of p2 ''more_items'' of None \<Rightarrow> Undefined | Some v \<Rightarrow> v)
               (update_prop ''last_assetid'' (case map_of p2 ''last_assetid'' of None \<Rightarrow> Undefined | Some v \<Rightarrow> v)
               (update_prop ''descriptions'' (JArr (d1 @ d2))
               (update_prop ''assets'' (JArr (a1 @ a2)) p1)))))"
proof -
  have 1: "concat_field ''assets'' (JObj p1) (JObj p2)
             = Inr (JObj (update_prop ''assets'' (JArr (a1 @ a2)) p1))"
    using assms(1,3) by (simp add: concat_field_arrays)
  have "map_of (update_prop ''assets'' (JArr (a1 @ a2)) p1) ''descriptions'' = Some (JArr d1)"
    using assms(2) by (simp add: map_of_update_prop)
  then have 2: "concat_field ''descriptions'' (JObj (update_prop ''assets'' (JArr (a1 @ a2)) p1)) (JObj p2)
             = Inr (JObj (update_prop ''descriptions'' (JArr (d1 @ d2))
                     (update_prop ''assets'' (JArr (a1 @ a2)) p1)))"
    using assms(4) by (simp add: concat_field_arrays)
  show ?thesis
    by (simp add: combine_def 1 2 copy_field_obj)
qed

lemma get_prop_obj_array:
  "get_prop (JObj ps) f = Inr (JArr xs) \<Longrightarrow> map_of ps f = Some (JArr xs)"
  by (auto split: option.splits)

lemma fetchInventory_second_request:
  assumes "srv log (first_request sid a c) = Inr r1"
    and "ok r1"
    and "json_body r1 = Inr (JObj p1)"
    and "get_prop (JObj p1) ''more_items'' = Inr m"
    and "truthy m"
    and "get_prop (JObj p1) ''last_assetid'' = Inr l"
  shows "fetchInventory srv log sid a c =
           fetchAdditional srv (log @ [first_request sid a c]) sid a c (JObj p1)"
    and "fst (fetchAdditional srv (log @ [first_request sid a c]) sid a c (JObj p1))
           = log @ [first_request sid a c, second_request sid a c l]"
proof -
  show "fetchInventory srv log sid a c =
           fetchAdditional srv (log @ [first_request sid a c]) sid a c (JObj p1)"
    using assms(1-5) by (simp add: fetchInventory_def fetch_def)
  show "fst (fetchAdditional srv (log @ [first_request sid a c]) sid a c (JObj p1))
           = log @ [first_request sid a c, second_request sid a c l]"
    using assms(6) by (simp add: fetchAdditional_def fetch_def split: sum.splits)
qed

text \<open>
  C1. When page 1 is answered successfully with a truthy \<open>more_items\<close>,
  \<open>fetchInventory\<close> issues exactly two requests: the first one and the one with
  page 1's \<open>last_assetid\<close> as cursor. When page 2 is answered successfully with an
  object, the merged result's \<open>assets\<close> and \<open>descriptions\<close> are page 1's sequences
  followed by page 2's, an absent property of page 2 counting as the empty sequence, so
  the lengths add up; its \<open>more_items\<close> and \<open>last_assetid\<close> are page 2's.
\<close>

theorem fetchInventory_two_pages:
  assumes "srv log (first_request sid a c) = Inr r1"
    and "ok r1"
    and "json_body r1 = Inr (JObj p1)"
    and "get_prop (JObj p1) ''more_items'' = Inr m"
    and "truthy m"
    and "get_prop (JObj p1) ''last_assetid'' = Inr l"
  shows "fst (fetchInventory srv log sid a c)
           = log @ [first_request sid a c, second_request sid a c l]
       \<and> (srv (log @ [first_request sid a c]) (second_request sid a c l) = Inr r2
            \<and> ok r2 \<and> json_body r2 = Inr (JObj p2)
            \<and> get_prop (JObj p1) ''assets'' = Inr (JArr a1)
            \<and> get_prop (JObj p1) ''descriptions'' = Inr (JArr d1)
            \<and> get_prop (JObj p2) ''assets'' = Inr v2 \<and> page_seq v2 = Some a2
            \<and> get_prop (JObj p2) ''descriptions'' = Inr w2 \<and> page_seq w2 = Some d2
          \<longrightarrow> (\<exists>merged. snd (fetchInventory srv log sid a c) = Inr merged
                 \<and> get_prop merged ''assets'' = Inr (JArr (a1 @ a2))
                 \<and> get_prop merged ''descriptions'' = Inr (JArr (d1 @ d2))
                 \<and> length (a1 @ a2) = length a1 + length a2
                 \<and> length (d1 @ d2) = length d1 + length d2
                 \<and> get_prop merged ''more_items'' = get_prop (JObj p2) ''more_items''
                 \<and> get_prop merged ''last_assetid'' = get_prop (JObj p2) ''last_assetid''))"
proof (intro conjI impI)
  note step = fetchInventory_second_request [where srv = srv and log = log, OF assms]
  show "fst (fetchInventory srv log sid a c)
          = log @ [first_request sid a c, second_request sid a c l]"
    using step by simp
  assume page2: "srv (log @ [first_request sid a c]) (second_request sid a c l) = Inr r2
            \<and> ok r2 \<and> json_body r2 = Inr (JObj p2)
            \<and> get_prop (JObj p1) ''assets'' = Inr (JArr a1)
            \<and> get_prop (JObj p1) ''descriptions'' = Inr (JArr d1)
            \<and> get_prop (JObj p2) ''assets'' = Inr v2 \<and> page_seq v2 = Some a2
            \<and> get_prop (JObj p2) ''descriptions'' = Inr w2 \<and> page_seq w2 = Some d2"
  let ?merged = "JObj (update_prop ''more_items'' (case map_of p2 ''more_items'' of None \<Rightarrow> Undefined | Some v \<Rightarrow> v)
               (update_prop ''last_assetid'' (case map_of p2 ''last_assetid'' of None \<Rightarrow> Undefined | Some v \<Rightarrow> v)
               (update_prop ''descriptions'' (JArr (d1 @ d2))
               (update_prop ''assets'' (JArr (a1 @ a2)) p1))))"
  have comb: "combine (JObj p1) (JObj p2) = Inr ?merged"
  proof (rule combine_pages)
    show "map_of p1 ''assets'' = Some (JArr a1)" using page2 get_prop_obj_array by blast
    show "map_of p1 ''descriptions'' = Some (JArr d1)" using page2 get_prop_obj_array by blast
    show "page_seq (case map_of p2 ''assets'' of None \<Rightarrow> Undefined | Some v \<Rightarrow> v) = Some a2"
      using page2 by auto
    show "page_seq (case map_of p2 ''descriptions'' of None \<Rightarrow> Undefined | Some v \<Rightarrow> v) = Some d2"
      using page2 by auto
  qed
  have "get_prop (JObj p1) ''last_assetid'' = Inr l" by (rule assms(6))
  then have "snd (fetchAdditional srv (log @ [first_request sid a c]) sid a c (JObj p1)) = Inr ?merged"
    using page2 comb by (simp add: fetchAdditional_def fetch_def)
  then have res: "snd (fetchInventory srv log sid a c) = Inr ?merged"
    using step(1) by simp
  show "\<exists>merged. snd (fetchInventory srv log sid a c) = Inr merged
                 \<and> get_prop merged ''assets'' = Inr (JArr (a1 @ a2))
                 \<and> get_prop merged ''descriptions'' = Inr (JArr (d1 @ d2))
                 \<and> length (a1 @ a2) = length a1 + length a2
                 \<and> length (d1 @ d2) = length d1 + length d2
                 \<and> get_prop merged ''more_items'' = get_prop (JObj p2) ''more_items''
                 \<and> get_prop merged ''last_assetid'' = get_prop (JObj p2) ''last_assetid''"
    using res by (intro exI [of _ ?merged]) (simp add: map_of_update_prop)
qed



theorem fetchInventory_two_pages_witness:
  "truthy (JNum 1)
   \<and> fst (fetchInventory two_page_remote [] (Some ''76561198000000001'') ''730'' ''2'')
       = [first_request (Some ''76561198000000001'') ''730'' ''2'',
          second_request (Some ''76561198000000001'') ''730'' ''2'' (JStr ''2'')]
   \<and> (\<exists>merged.
         snd (fetchInventory two_page_remote [] (Some ''76561198000000001'') ''730'' ''2'') = Inr merged
         \<and> get_prop merged ''assets'' = Inr (JArr [JStr ''asset-1'', JStr ''asset-2'', JStr ''asset-3''])
         \<and> get_prop merged ''descriptions'' = Inr (JArr [JStr ''description-1''])
         \<and> get_prop merged ''more_items'' = Inr Undefined
         \<and> get_prop merged ''last_assetid'' = Inr Undefined)"
  using fetchInventory_two_pages
    [where srv = two_page_remote and log = "[]" and sid = "Some ''76561198000000001''"
       and a = "''730''" and c = "''2''" and ?r1.0 = "json_response page_one"
       and ?p1.0 = "[(''assets'', JArr [JStr ''asset-1'', JStr ''asset-2'']),
                    (''descriptions'', JArr [JStr ''description-1'']),
                    (''more_items'', JNum 1),
                    (''last_assetid'', JStr ''2''),
                    (''total_inventory_count'', JNum 3)]"
       and m = "JNum 1" and l = "JStr ''2''" and ?r2.0 = "json_response page_two"
       and ?p2.0 = "[(''assets'', JArr [JStr ''asset-3''])]"
       and ?a1.0 = "[JStr ''asset-1'', JStr ''asset-2'']" and ?d1.0 = "[JStr ''description-1'']"
       and ?v2.0 = "JArr [JStr ''asset-3'']" and ?a2.0 = "[JStr ''asset-3'']"
       and ?w2.0 = Undefined and ?d2.0 = "[]"]
  by (simp add: two_page_remote_def json_response_def page_one_def page_two_def)

text \<open>
  C10. When the profile document has no 17-digit pattern, \<open>getUserInventory\<close> goes on
  with the \<open>null\<close> identity: its outcome is that of \<open>fetchInventory\<close> called with
  \<open>null\<close>, the request after the profile request is the page-1 request, and that
  request's URL has the text \<open>null\<close> where the identity belongs.
\<close>

theorem getUserInventory_null_identity:
  assumes "srv log profile_request = Inr r"
    and "text_body r = Inr body"
    and "\<not> contains_steamid_pattern body"
  shows "getUserInventory srv log a c = fetchInventory srv (log @ [profile_request]) None a c
       \<and> (\<exists>rest. fst (getUserInventory srv log a c)
                    = log @ [profile_request, first_request None a c] @ rest)
       \<and> url (first_request None a c)
           = ''https://steamcommunity.com/inventory/null/'' @ a @ ''/'' @ c @ ''?l=english&count=75''"
proof -
  have sid: "getSteamId srv log = (log @ [profile_request], Inr None)"
    using assms by (simp add: getSteamId_any_status regex_match_None_iff)
  then have same: "getUserInventory srv log a c = fetchInventory srv (log @ [profile_request]) None a c"
    by (simp add: getUserInventory_def)
  obtain rest where "fst (fetchInventory srv (log @ [profile_request]) None a c)
      = (log @ [profile_request]) @ first_request None a c # rest"
    using fetchInventory_first_request by blast
  then have "fst (getUserInventory srv log a c) = log @ [profile_request, first_request None a c] @ rest"
    using same by simp
  moreover have "url (first_request None a c)
           = ''https://steamcommunity.com/inventory/null/'' @ a @ ''/'' @ c @ ''?l=english&count=75''"
    by (simp add: first_request_def baseFetchUrl_def id_text_def)
  ultimately show ?thesis using same by blast
qed

theorem getUserInventory_null_identity_witness:
  "\<not> contains_steamid_pattern ''<html>Sign In</html>''
   \<and> getUserInventory logged_out_remote [] ''730'' ''2''
       = fetchInventory logged_out_remote [profile_request] None ''730'' ''2''
   \<and> (\<exists>rest. fst (getUserInventory logged_out_remote [] ''730'' ''2'')
                = [profile_request, first_request None ''730'' ''2''] @ rest)
   \<and> url (first_request None ''730'' ''2'')
       = ''https://steamcommunity.com/inventory/null/730/2?l=english&count=75''"
proof -
  have "regex_match ''<html>Sign In</html>'' = None"
    by (simp add: match_here_def)
  then have absent: "\<not> contains_steamid_pattern ''<html>Sign In</html>''"
    using regex_match_None_iff by blast
  have "logged_out_remote [] profile_request = Inr (text_response ''<html>Sign In</html>'')"
    by (simp add: logged_out_remote_def)
  moreover have "text_body (text_response ''<html>Sign In</html>'') = Inr ''<html>Sign In</html>''"
    by (simp add: text_response_def)
  ultimately have main:
    "getUserInventory logged_out_remote [] ''730'' ''2''
       = fetchInventory logged_out_remote ([] @ [profile_request]) None ''730'' ''2''
     \<and> (\<exists>rest. fst (getUserInventory logged_out_remote [] ''730'' ''2'')
                  = [] @ [profile_request, first_request None ''730'' ''2''] @ rest)
     \<and> url (first_request None ''730'' ''2'')
         = ''https://steamcommunity.com/inventory/null/'' @ ''730'' @ ''/'' @ ''2'' @ ''?l=english&count=75''"
    using getUserInventory_null_identity
      [where srv = logged_out_remote and log = "[]" and body = "''<html>Sign In</html>''"
         and a = "''730''" and c = "''2''"] absent
    by blast
  have 1: "getUserInventory logged_out_remote [] ''730'' ''2''
       = fetchInventory logged_out_remote [profile_request] None ''730'' ''2''"
    using main by simp
  have 2: "\<exists>rest. fst (getUserInventory logged_out_remote [] ''730'' ''2'')
                  = [profile_request, first_request None ''730'' ''2''] @ rest"
    using conjunct1 [OF conjunct2 [OF main]] by simp
  have 3: "url (first_request None ''730'' ''2'')
       = ''https://steamcommunity.com/inventory/null/730/2?l=english&count=75''"
    using conjunct2 [OF conjunct2 [OF main]] by simp
  show ?thesis using absent 1 2 3 by blast
qed

section \<open>Results: Readiness Handshake\<close>

text \<open>
  One round of the handshake when the probe fails, at the first attempt and at the
  retry, and the round that finds the companion script.
\<close>

lemma probe_fails_thrown: "probe_fails answer \<longleftrightarrow> probe_thrown answer \<noteq> None"
  by (simp add: probe_fails_def probe_thrown_def split: sum.splits)

lemma ensure_retry_step:
  assumes "probe_fails (snd (sendMessage api h tabId))"
  shows "ensureContentScript api tabId (Suc 0) (h, calls) =
     (case executeScript api (fst (sendMessage api h tabId)) tabId of
        (h2, Inl e) \<Rightarrow> ((h2, calls @ [SendMessage tabId, ExecuteScript tabId]), Inl e)
      | (h2, Inr u) \<Rightarrow> ((h2, calls @ [SendMessage tabId, ExecuteScript tabId]),
            Inl (Error (''Failed to inject content script into tab '' @ show_int tabId))))"
  using assms
  by (auto simp: ensureContentScript.simps [of api tabId "Suc 0"] probe_fails_thrown
      split: prod.splits option.splits sum.splits)

lemma ensure_first_step:
  assumes "probe_fails (snd (sendMessage api h tabId))"
  shows "ensureContentScript api tabId 0 (h, calls) =
     (case executeScript api (fst (sendMessage api h tabId)) tabId of
        (h2, Inl e) \<Rightarrow> ((h2, calls @ [SendMessage tabId, ExecuteScript tabId]), Inl e)
      | (h2, Inr u) \<Rightarrow>
          ensureContentScript api tabId (Suc 0) (h2, calls @ [SendMessage tabId, ExecuteScript tabId]))"
  using assms
  by (auto simp: ensureContentScript.simps [of api tabId 0] probe_fails_thrown
      split: prod.splits option.splits sum.splits)

lemma ensure_ready_step:
  assumes "sendMessage api h tabId = (h1, Inr res)" "res \<noteq> Undefined"
  shows "ensureContentScript api tabId attempt (h, calls) = ((h1, calls @ [SendMessage tabId]), Inr True)"
  using assms
  by (simp add: ensureContentScript.simps [of api tabId attempt] probe_thrown_def)

lemma ensure_probe_always_fails_cases:
  assumes "\<forall>h. probe_fails (snd (sendMessage api h tabId))"
  shows "(\<exists>h2 e. ensureContentScript api tabId 0 (h, calls)
              = ((h2, calls @ [SendMessage tabId, ExecuteScript tabId]), Inl e)
            \<and> (\<exists>h1. snd (executeScript api h1 tabId) = Inl e))
       \<or> (\<exists>h4 e. ensureContentScript api tabId 0 (h, calls)
              = ((h4, (calls @ [SendMessage tabId, ExecuteScript tabId])
                        @ [SendMessage tabId, ExecuteScript tabId]), Inl e)
            \<and> (\<exists>h3. snd (executeScript api h3 tabId) = Inl e))
       \<or> (\<exists>h4. ensureContentScript api tabId 0 (h, calls)
              = ((h4, (calls @ [SendMessage tabId, ExecuteScript tabId])
                        @ [SendMessage tabId, ExecuteScript tabId]),
                 Inl (Error (''Failed to inject content script into tab '' @ show_int tabId))))"
proof -
  have first: "probe_fails (snd (sendMessage api h tabId))" using assms by blast
  obtain h2 r where inj1: "executeScript api (fst (sendMessage api h tabId)) tabId = (h2, r)"
    by (cases "executeScript api (fst (sendMessage api h tabId)) tabId")
  have again: "probe_fails (snd (sendMessage api h2 tabId))" using assms by blast
  obtain h4 r' where inj2: "executeScript api (fst (sendMessage api h2 tabId)) tabId = (h4, r')"
    by (cases "executeScript api (fst (sendMessage api h2 tabId)) tabId")
  show ?thesis
  proof (cases r)
    case (Inl e)
    then have "ensureContentScript api tabId 0 (h, calls)
        = ((h2, calls @ [SendMessage tabId, ExecuteScript tabId]), Inl e)"
      using inj1 by (simp add: ensure_first_step [OF first])
    moreover have "snd (executeScript api (fst (sendMessage api h tabId)) tabId) = Inl e"
      using inj1 Inl by simp
    ultimately show ?thesis by blast
  next
    case (Inr u)
    then have run1: "ensureContentScript api tabId 0 (h, calls)
        = ensureContentScript api tabId (Suc 0) (h2, calls @ [SendMessage tabId, ExecuteScript tabId])"
      using inj1 by (simp add: ensure_first_step [OF first])
    show ?thesis
    proof (cases r')
      case (Inl e)
      then have "ensureContentScript api tabId 0 (h, calls)
          = ((h4, (calls @ [SendMessage tabId, ExecuteScript tabId])
                    @ [SendMessage tabId, ExecuteScript tabId]), Inl e)"
        using inj2 run1 by (simp add: ensure_retry_step [OF again])
      moreover have "snd (executeScript api (fst (sendMessage api h2 tabId)) tabId) = Inl e"
        using inj2 Inl by simp
      ultimately show ?thesis by blast
    next
      case (Inr u')
      then have "ensureContentScript api tabId 0 (h, calls)
          = ((h4, (calls @ [SendMessage tabId, ExecuteScript tabId])
                    @ [SendMessage tabId, ExecuteScript tabId]),
             Inl (Error (''Failed to inject content script into tab '' @ show_int tabId)))"
        using inj2 run1 by (simp add: ensure_retry_step [OF again])
      then show ?thesis by blast
    qed
  qed
qed

text \<open>
  C2, as amended. On a tab whose probe fails at every attempt, \<open>ensureContentScript\<close>
  never makes more than two injection attempts and always fails; when the injection
  calls themselves complete, it makes exactly two and fails with the error that names
  the tab.
\<close>

theorem ensureContentScript_probe_always_fails:
  assumes "\<forall>h. probe_fails (snd (sendMessage api h tabId))"
  shows "injections tabId (snd (fst (ensureContentScript api tabId 0 (h, calls))))
           \<le> injections tabId calls + 2
       \<and> (\<exists>e. snd (ensureContentScript api tabId 0 (h, calls)) = Inl e)
       \<and> ((\<forall>h. snd (executeScript api h tabId) = Inr ()) \<longrightarrow>
            injections tabId (snd (fst (ensureContentScript api tabId 0 (h, calls))))
              = injections tabId calls + 2
            \<and> snd (ensureContentScript api tabId 0 (h, calls))
              = Inl (Error (''Failed to inject content script into tab '' @ show_int tabId)))"
proof -
  let ?run = "ensureContentScript api tabId 0 (h, calls)"
  let ?failed = "Inl (Error (''Failed to inject content script into tab '' @ show_int tabId))"
  consider
    (once) h2 e h1 where "?run = ((h2, calls @ [SendMessage tabId, ExecuteScript tabId]), Inl e)"
      "snd (executeScript api h1 tabId) = Inl e"
  | (twice) h4 e h3 where "?run = ((h4, (calls @ [SendMessage tabId, ExecuteScript tabId])
                        @ [SendMessage tabId, ExecuteScript tabId]), Inl e)"
      "snd (executeScript api h3 tabId) = Inl e"
  | (gave_up) h4 where "?run = ((h4, (calls @ [SendMessage tabId, ExecuteScript tabId])
                        @ [SendMessage tabId, ExecuteScript tabId]), ?failed)"
    using ensure_probe_always_fails_cases [OF assms, of h calls] by blast
  then show ?thesis
  proof cases
    case once
    have "\<not> (\<forall>h. snd (executeScript api h tabId) = Inr ())"
      using once(2) by (metis sum.distinct(1))
    moreover have "injections tabId (snd (fst ?run)) \<le> injections tabId calls + 2"
      by (simp add: once(1) injections_def)
    moreover have "\<exists>e. snd ?run = Inl e"
      by (simp add: once(1))
    ultimately show ?thesis by blast
  next
    case twice
    have "\<not> (\<forall>h. snd (executeScript api h tabId) = Inr ())"
      using twice(2) by (metis sum.distinct(1))
    moreover have "injections tabId (snd (fst ?run)) \<le> injections tabId calls + 2"
      by (simp add: twice(1) injections_def)
    moreover have "\<exists>e. snd ?run = Inl e"
      by (simp add: twice(1))
    ultimately show ?thesis by blast
  next
    case gave_up
    have "injections tabId (snd (fst ?run)) = injections tabId calls + 2"
      by (simp add: gave_up injections_def)
    moreover have "snd ?run = ?failed"
      by (simp add: gave_up)
    ultimately show ?thesis by simp
  qed
qed

theorem ensureContentScript_probe_always_fails_witness:
  "probe_fails (snd (sendMessage deaf_tab_api () 7))
   \<and> snd (executeScript deaf_tab_api () 7) = Inr ()
   \<and> injections 7 (snd (fst (ensureContentScript deaf_tab_api 7 0 ((), [])))) = 2
   \<and> snd (ensureContentScript deaf_tab_api 7 0 ((), []))
       = Inl (Error ''Failed to inject content script into tab 7'')"
proof -
  have fails: "\<forall>h. probe_fails (snd (sendMessage deaf_tab_api h 7))"
    by (simp add: deaf_tab_api_def probe_fails_def)
  have injects: "\<forall>h. snd (executeScript deaf_tab_api h 7) = Inr ()"
    by (simp add: deaf_tab_api_def)
  have seven: "show_int 7 = ''7''"
    by (simp add: show_int_def show_nat.simps digit_char_def)
  show ?thesis
    using ensureContentScript_probe_always_fails [OF fails, of "()" "[]"] fails injects seven
    by (simp add: injections_def)
qed

text \<open>
  C2, as stated, fails where the host rejects the injection itself (a page the
  extension may not script): the probe fails, one injection attempt is made, and the
  host's rejection is what \<open>ensureContentScript\<close> fails with.
\<close>

theorem ensureContentScript_one_attempt_counterexample:
  "probe_fails (snd (sendMessage restricted_tab_api () 7))
   \<and> injections 7 (snd (fst (ensureContentScript restricted_tab_api 7 0 ((), [])))) = 1
   \<and> snd (ensureContentScript restricted_tab_api 7 0 ((), []))
       = Inl (Error ''Cannot access contents of the page'')"
proof -
  have fails: "probe_fails (snd (sendMessage restricted_tab_api () 7))"
    by (simp add: restricted_tab_api_def probe_fails_def)
  have "ensureContentScript restricted_tab_api 7 0 ((), [])
          = (((), [SendMessage 7, ExecuteScript 7]), Inl (Error ''Cannot access contents of the page''))"
    by (subst ensure_first_step [OF fails]) (simp add: restricted_tab_api_def)
  then show ?thesis
    using fails by (simp add: injections_def)
qed



text \<open>The call log of a handshake only grows.\<close>

lemma ensure_calls_grow:
  "\<exists>rest. snd (fst (ensureContentScript api tabId attempt (h, calls))) = calls @ rest"
proof (induction api tabId attempt "(h, calls)" arbitrary: h calls rule: ensureContentScript.induct)
  case (1 api tabId attempt h calls)
  show ?case
  proof (cases "sendMessage api h tabId")
    case probe: (Pair h1 answer)
    show ?thesis
    proof (cases "probe_thrown answer")
      case None
      then show ?thesis using probe by (simp add: ensureContentScript.simps [of api tabId attempt])
    next
      case (Some error)
      show ?thesis
      proof (cases "executeScript api h1 tabId")
        case inject: (Pair h2 r)
        show ?thesis
        proof (cases r)
          case (Inl e)
          then show ?thesis using probe Some inject
            by (simp add: ensureContentScript.simps [of api tabId attempt])
        next
          case (Inr u)
          show ?thesis
          proof (cases "attempt = 0")
            case True
            from "1" [OF probe [symmetric] Some inject [symmetric] Inr True]
            obtain rest where "snd (fst (ensureContentScript api tabId 1
                (h2, calls @ [SendMessage tabId, ExecuteScript tabId])))
                  = (calls @ [SendMessage tabId, ExecuteScript tabId]) @ rest"
              by blast
            then show ?thesis using probe Some inject Inr True
              by (simp add: ensureContentScript.simps [of api tabId 0])
          next
            case False
            then show ?thesis using probe Some inject Inr
              by (simp add: ensureContentScript.simps [of api tabId attempt])
          qed
        qed
      qed
    qed
  qed
qed


lemma ensure_undefined_injects:
  assumes "sendMessage api h tabId = (h1, Inr Undefined)"
  shows "\<exists>rest. snd (fst (ensureContentScript api tabId 0 (h, calls)))
            = calls @ [SendMessage tabId, ExecuteScript tabId] @ rest"
proof -
  have fails: "probe_fails (snd (sendMessage api h tabId))"
    using assms by (simp add: probe_fails_def)
  obtain h2 r where inject: "executeScript api (fst (sendMessage api h tabId)) tabId = (h2, r)"
    by (cases "executeScript api (fst (sendMessage api h tabId)) tabId")
  show ?thesis
  proof (cases r)
    case (Inl e)
    then show ?thesis using inject by (simp add: ensure_first_step [OF fails])
  next
    case (Inr u)
    from ensure_calls_grow [where api = api and tabId = tabId and attempt = "Suc 0" and h = h2
        and calls = "calls @ [SendMessage tabId, ExecuteScript tabId]"]
    obtain rest where "snd (fst (ensureContentScript api tabId (Suc 0)
          (h2, calls @ [SendMessage tabId, ExecuteScript tabId])))
        = (calls @ [SendMessage tabId, ExecuteScript tabId]) @ rest"
      by blast
    then show ?thesis using inject Inr by (simp add: ensure_first_step [OF fails])
  qed
qed

text \<open>
  C9. A probe answered with any defined value makes \<open>ensureContentScript\<close> report
  ready after that one probe, with no injection attempt. A probe answered with
  \<open>undefined\<close> is followed at once by an injection attempt, and a tab that answers
  \<open>undefined\<close> to every probe is never reported ready.
\<close>

theorem ensureContentScript_probe_answer:
  "(sendMessage api h tabId = (h1, Inr res) \<and> res \<noteq> Undefined \<longrightarrow>
      ensureContentScript api tabId 0 (h, calls) = ((h1, calls @ [SendMessage tabId]), Inr True)
      \<and> injections tabId (snd (fst (ensureContentScript api tabId 0 (h, calls))))
          = injections tabId calls)
   \<and> (sendMessage api h tabId = (h1, Inr Undefined) \<longrightarrow>
      (\<exists>rest. snd (fst (ensureContentScript api tabId 0 (h, calls)))
                 = calls @ [SendMessage tabId, ExecuteScript tabId] @ rest)
      \<and> injections tabId calls
          < injections tabId (snd (fst (ensureContentScript api tabId 0 (h, calls)))))
   \<and> ((\<forall>s. snd (sendMessage api s tabId) = Inr Undefined) \<longrightarrow>
      (\<exists>e. snd (ensureContentScript api tabId 0 (h, calls)) = Inl e))"
proof (intro conjI impI)
  assume ready: "sendMessage api h tabId = (h1, Inr res) \<and> res \<noteq> Undefined"
  then show run: "ensureContentScript api tabId 0 (h, calls)
      = ((h1, calls @ [SendMessage tabId]), Inr True)"
    by (simp add: ensure_ready_step)
  show "injections tabId (snd (fst (ensureContentScript api tabId 0 (h, calls))))
          = injections tabId calls"
    by (simp add: run injections_def)
next
  assume silent: "sendMessage api h tabId = (h1, Inr Undefined)"
  from ensure_undefined_injects [OF silent, of calls]
  obtain rest where log: "snd (fst (ensureContentScript api tabId 0 (h, calls)))
      = calls @ [SendMessage tabId, ExecuteScript tabId] @ rest"
    by blast
  then show "\<exists>rest. snd (fst (ensureContentScript api tabId 0 (h, calls)))
                 = calls @ [SendMessage tabId, ExecuteScript tabId] @ rest"
    by blast
  show "injections tabId calls
          < injections tabId (snd (fst (ensureContentScript api tabId 0 (h, calls))))"
    by (simp add: log injections_def)
next
  assume "\<forall>s. snd (sendMessage api s tabId) = Inr Undefined"
  then have "\<forall>s. probe_fails (snd (sendMessage api s tabId))"
    by (simp add: probe_fails_def)
  from ensure_probe_always_fails_cases [OF this, of h calls]
  show "\<exists>e. snd (ensureContentScript api tabId 0 (h, calls)) = Inl e"
    by auto
qed

theorem ensureContentScript_probe_answer_witness:
  "(sendMessage ready_tab_api () 7 = ((), Inr (JObj [])) \<and> JObj [] \<noteq> Undefined
    \<and> ensureContentScript ready_tab_api 7 0 ((), []) = (((), [SendMessage 7]), Inr True)
    \<and> injections 7 (snd (fst (ensureContentScript ready_tab_api 7 0 ((), [])))) = 0)
   \<and> (sendMessage silent_tab_api () 7 = ((), Inr Undefined)
    \<and> 0 < injections 7 (snd (fst (ensureContentScript silent_tab_api 7 0 ((), []))))
    \<and> (\<exists>e. snd (ensureContentScript silent_tab_api 7 0 ((), [])) = Inl e))"
proof -
  have ready: "sendMessage ready_tab_api () 7 = ((), Inr (JObj []))"
    by (simp add: ready_tab_api_def)
  have silent: "\<forall>s. snd (sendMessage silent_tab_api s 7) = Inr Undefined"
    by (simp add: silent_tab_api_def)
  have silent_once: "sendMessage silent_tab_api () 7 = ((), Inr Undefined)"
    by (simp add: silent_tab_api_def)
  have first: "ensureContentScript ready_tab_api 7 0 ((), []) = (((), [SendMessage 7]), Inr True)
      \<and> injections 7 (snd (fst (ensureContentScript ready_tab_api 7 0 ((), [])))) = 0"
    using ensureContentScript_probe_answer
      [where api = ready_tab_api and h = "()" and tabId = 7 and ?h1.0 = "()"
         and res = "JObj []" and calls = "[]"] ready
    by (simp add: injections_def)
  have second: "0 < injections 7 (snd (fst (ensureContentScript silent_tab_api 7 0 ((), []))))
      \<and> (\<exists>e. snd (ensureContentScript silent_tab_api 7 0 ((), [])) = Inl e)"
    using ensureContentScript_probe_answer
      [where api = silent_tab_api and h = "()" and tabId = 7 and ?h1.0 = "()"
         and res = Undefined and calls = "[]"] silent silent_once
    by (simp add: injections_def)
  show ?thesis using ready silent_once first second by (simp add: injections_def)
qed

section \<open>Results: Command Dispatcher\<close>

text \<open>
  Once \<open>fn()\<close> has returned its promise, \<open>executeCommand\<close> hands the caller one
  envelope, whatever the promise settles to, and its own promise is fulfilled. When
  \<open>fn()\<close> throws, nothing is handed to the caller and the promise is rejected.
\<close>

lemma executeCommand_responds:
  assumes "fn w = (w1, Returns outcome)"
  shows "executeCommand fn respond_to_caller w
           = (w1\<lparr>responses := responses w1 @ [envelope_of outcome]\<rparr>, Inr Undefined)"
  using assms
  by (cases outcome)
     (simp_all add: executeCommand_def then_promise_def catch_promise_def respond_to_caller_def
        envelope_of_def)

lemma executeCommand_throws:
  assumes "fn w = (w1, Throws e)"
  shows "executeCommand fn respond w = (w1, Inl e)"
  using assms by (simp add: executeCommand_def)

lemma get_prop_present:
  assumes "d \<noteq> Undefined" and "d \<noteq> Null"
  shows "\<exists>v. get_prop d name = Inr v"
  using assms by (cases d) simp_all

text \<open>
  C4, as amended. For a \<open>get-inventory\<close> message whose \<open>data\<close> is neither
  \<open>undefined\<close> nor \<open>null\<close>, the listener hands the caller exactly one envelope: the
  success envelope with the payload when \<open>getUserInventory\<close> returns, the failure
  envelope with the error's message when it throws. No rejection is left unhandled.
\<close>

theorem onMessage_get_inventory_envelope:
  assumes "get_prop msg ''event'' = Inr (JStr ''get-inventory'')"
    and "get_prop msg ''data'' = Inr d"
    and "d \<noteq> Undefined"
    and "d \<noteq> Null"
  shows "\<exists>a c. get_prop d ''appId'' = Inr a \<and> get_prop d ''contextId'' = Inr c
           \<and> responses (fst (onMessage srv msg w))
               = responses w @ [envelope_of (snd (getUserInventory srv (requests w)
                                                    (to_string a) (to_string c)))]
           \<and> unhandled (fst (onMessage srv msg w)) = unhandled w
           \<and> snd (onMessage srv msg w) = Inr True"
proof -
  obtain a where a: "get_prop d ''appId'' = Inr a"
    using get_prop_present [OF assms(3,4)] by blast
  obtain c where c: "get_prop d ''contextId'' = Inr c"
    using get_prop_present [OF assms(3,4)] by blast
  obtain log1 outcome where run:
    "getUserInventory srv (requests w) (to_string a) (to_string c) = (log1, outcome)"
    by (cases "getUserInventory srv (requests w) (to_string a) (to_string c)")
  have "inventory_thunk srv d w = (w\<lparr>requests := log1\<rparr>, Returns outcome)"
    using a c run by (simp add: inventory_thunk_def)
  from executeCommand_responds [where fn = "inventory_thunk srv d" and w = w, OF this]
  have "onMessage srv msg w
      = (w\<lparr>requests := log1, responses := responses w @ [envelope_of outcome]\<rparr>, Inr True)"
    using assms(1,2) by (simp add: onMessage_def)
  then have "responses (fst (onMessage srv msg w))
               = responses w @ [envelope_of (snd (getUserInventory srv (requests w)
                                                    (to_string a) (to_string c)))]
           \<and> unhandled (fst (onMessage srv msg w)) = unhandled w
           \<and> snd (onMessage srv msg w) = Inr True"
    using run by simp
  then show ?thesis using a c by blast
qed

theorem onMessage_get_inventory_envelope_witness:
  "get_prop get_inventory_msg ''event'' = Inr (JStr ''get-inventory'')
   \<and> get_prop get_inventory_msg ''data'' = Inr (JObj [(''appId'', JNum 730), (''contextId'', JNum 2)])
   \<and> responses (fst (onMessage logged_out_remote get_inventory_msg fresh_world))
       = [Failure ''Unexpected token < in JSON'']
   \<and> unhandled (fst (onMessage logged_out_remote get_inventory_msg fresh_world)) = []"
proof -
  let ?d = "JObj [(''appId'', JNum 730), (''contextId'', JNum 2)]"
  have ev: "get_prop get_inventory_msg ''event'' = Inr (JStr ''get-inventory'')"
    by (simp add: get_inventory_msg_def)
  have da: "get_prop get_inventory_msg ''data'' = Inr ?d"
    by (simp add: get_inventory_msg_def)
  have "regex_match ''<html>Sign In</html>'' = None"
    by (simp add: match_here_def)
  then have sid: "\<And>log. getSteamId logged_out_remote log = (log @ [profile_request], Inr None)"
    by (simp add: getSteamId_def fetch_def logged_out_remote_def text_response_def)
  have "\<And>log a c. snd (fetchInventory logged_out_remote log None a c)
          = Inl (SyntaxError ''Unexpected token < in JSON'')"
    by (simp add: fetchInventory_def fetch_def logged_out_remote_def text_response_def)
  then have run: "\<And>a c. snd (getUserInventory logged_out_remote [] a c)
          = Inl (SyntaxError ''Unexpected token < in JSON'')"
    using sid by (simp add: getUserInventory_def)
  from onMessage_get_inventory_envelope
    [where msg = get_inventory_msg and d = ?d and srv = logged_out_remote and w = fresh_world, OF ev da]
  obtain a c where
    "responses (fst (onMessage logged_out_remote get_inventory_msg fresh_world))
       = responses fresh_world @ [envelope_of (snd (getUserInventory logged_out_remote
            (requests fresh_world) (to_string a) (to_string c)))]"
    "unhandled (fst (onMessage logged_out_remote get_inventory_msg fresh_world)) = unhandled fresh_world"
    by blast
  then show ?thesis
    using ev da run by (simp add: fresh_world_def envelope_of_def)
qed

text \<open>
  C4, as stated, fails for a \<open>get-inventory\<close> message that carries no \<open>data\<close>:
  reading \<open>data.appId\<close> throws inside \<open>fn()\<close>, no envelope is handed to the caller,
  and the rejection of \<open>executeCommand\<close> is handled by nothing.
\<close>

theorem onMessage_without_data_counterexample:
  "get_prop no_data_msg ''event'' = Inr (JStr ''get-inventory'')
   \<and> responses (fst (onMessage logged_out_remote no_data_msg fresh_world)) = []
   \<and> unhandled (fst (onMessage logged_out_remote no_data_msg fresh_world))
       = [TypeError ''Cannot read properties of undefined (reading appId)'']"
  by (simp add: onMessage_def no_data_msg_def inventory_thunk_def executeCommand_def
      fresh_world_def)

text \<open>An event of any other name is warned about and gets no envelope.\<close>

lemma onMessage_unknown_event:
  assumes "get_prop msg ''event'' = Inr event"
    and "get_prop msg ''data'' = Inr d"
    and "event \<noteq> JStr ''get-inventory''"
  shows "onMessage srv msg w = (w\<lparr>warnings := warnings w @ [event]\<rparr>, Inr True)"
  using assms by (simp add: onMessage_def)

section \<open>Results: Permission Sync Engine\<close>

lemma keep_origins_filter:
  "keep_origins removed ms = filter (\<lambda>origin. origin \<notin> set removed) ms"
  by (induction ms) auto

lemma first_of_filter_registered:
  assumes "first_of (filter (\<lambda>r. script_id r \<in> set ids) (registered st)) = Some a"
  shows "script_id a \<in> set ids" and "script_id a \<in> registered_ids st"
proof -
  from assms obtain rest where "filter (\<lambda>r. script_id r \<in> set ids) (registered st) = a # rest"
    by (auto simp: first_of_def split: list.splits)
  then have "a \<in> set (filter (\<lambda>r. script_id r \<in> set ids) (registered st))" by simp
  then show "script_id a \<in> set ids" and "script_id a \<in> registered_ids st"
    by (auto simp: registered_ids_def)
qed

lemma onRemoved_unregisters:
  assumes "first_of (snd (getRegisteredContentScripts [''content-script''] st)) = Some active"
    and "origins perms \<noteq> []"
    and "keep_origins (origins perms) (matches active) = []"
  shows "onRemoved perms st =
           (st\<lparr>api_calls := api_calls st @ [GetRegistered [''content-script''],
                                                 Unregister [''content-script'']],
               registered := filter (\<lambda>r. script_id r \<notin> set [''content-script'']) (registered st)\<rparr>,
            Inr ())"
proof -
  have found: "first_of (filter (\<lambda>r. script_id r \<in> set [''content-script'']) (registered st)) = Some active"
    using assms(1) by (simp add: getRegisteredContentScripts_def)
  have "script_id active \<in> set [''content-script'']" "script_id active \<in> registered_ids st"
    using first_of_filter_registered [OF found] by blast+
  then have known: "''content-script'' \<in> registered_ids st" by simp
  show ?thesis
    using found assms(2,3) known
    by (simp add: onRemoved_def getRegisteredContentScripts_def unregisterContentScripts_def
        newScript_def registered_ids_def Let_def)
qed

lemma onRemoved_no_empty_match_call:
  "\<not> list_ex empty_match_call (new_calls st (fst (onRemoved perms st)))"
  by (auto simp: onRemoved_def getRegisteredContentScripts_def unregisterContentScripts_def
      updateContentScripts_def registerContentScripts_def
      newScript_def new_calls_def empty_match_call_def Let_def split: option.splits)

text \<open>
  C3. When the removal listener finds the companion script registered and an event
  (one with origins: an event without is ignored) removes every one of its match
  patterns, the listener's calls are the read and \<open>unregisterContentScripts\<close>, and
  the script is registered no more. In no case does the listener register or update a
  script with an empty match set.
\<close>

theorem onRemoved_last_origin_unregisters:
  "(first_of (snd (getRegisteredContentScripts [''content-script''] st)) = Some active
      \<and> origins perms \<noteq> []
      \<and> keep_origins (origins perms) (matches active) = []
    \<longrightarrow> new_calls st (fst (onRemoved perms st))
          = [GetRegistered [''content-script''], Unregister [''content-script'']]
        \<and> snd (onRemoved perms st) = Inr ()
        \<and> registered (fst (onRemoved perms st))
          = filter (\<lambda>r. script_id r \<noteq> ''content-script'') (registered st)
        \<and> ''content-script'' \<notin> registered_ids (fst (onRemoved perms st)))
   \<and> \<not> list_ex empty_match_call (new_calls st (fst (onRemoved perms st)))"
proof (intro conjI impI)
  assume "first_of (snd (getRegisteredContentScripts [''content-script''] st)) = Some active
      \<and> origins perms \<noteq> []
      \<and> keep_origins (origins perms) (matches active) = []"
  then have run: "onRemoved perms st =
           (st\<lparr>api_calls := api_calls st @ [GetRegistered [''content-script''],
                                                 Unregister [''content-script'']],
               registered := filter (\<lambda>r. script_id r \<notin> set [''content-script'']) (registered st)\<rparr>,
            Inr ())"
    using onRemoved_unregisters by blast
  show "new_calls st (fst (onRemoved perms st))
          = [GetRegistered [''content-script''], Unregister [''content-script'']]"
    by (simp add: run new_calls_def)
  show "snd (onRemoved perms st) = Inr ()" by (simp add: run)
  show "registered (fst (onRemoved perms st))
          = filter (\<lambda>r. script_id r \<noteq> ''content-script'') (registered st)"
    by (simp add: run)
  show "''content-script'' \<notin> registered_ids (fst (onRemoved perms st))"
    by (auto simp: run registered_ids_def)
next
  show "\<not> list_ex empty_match_call (new_calls st (fst (onRemoved perms st)))"
    by (rule onRemoved_no_empty_match_call)
qed

theorem onRemoved_last_origin_unregisters_witness:
  "first_of (snd (getRegisteredContentScripts [''content-script''] one_origin_registration))
       = Some (newScript [''https://a.com/*''])
   \<and> keep_origins [''https://a.com/*''] (matches (newScript [''https://a.com/*''])) = []
   \<and> new_calls one_origin_registration
         (fst (onRemoved \<lparr>origins = [''https://a.com/*'']\<rparr> one_origin_registration))
       = [GetRegistered [''content-script''], Unregister [''content-script'']]
   \<and> registered (fst (onRemoved \<lparr>origins = [''https://a.com/*'']\<rparr> one_origin_registration)) = []"
proof -
  have active: "first_of (snd (getRegisteredContentScripts [''content-script''] one_origin_registration))
       = Some (newScript [''https://a.com/*''])"
    by (simp add: getRegisteredContentScripts_def one_origin_registration_def first_of_def newScript_def)
  have gone: "keep_origins [''https://a.com/*''] (matches (newScript [''https://a.com/*''])) = []"
    by (simp add: newScript_def)
  have "registered one_origin_registration = [newScript [''https://a.com/*'']]"
    by (simp add: one_origin_registration_def)
  then have "filter (\<lambda>r. script_id r \<noteq> ''content-script'') (registered one_origin_registration) = []"
    by (simp add: newScript_def)
  then show ?thesis
    using onRemoved_last_origin_unregisters
      [where st = one_origin_registration and active = "newScript [''https://a.com/*'']"
         and perms = "\<lparr>origins = [''https://a.com/*'']\<rparr>"] active gone
    by simp
qed

lemma absent_filters:
  assumes "ident \<notin> registered_ids st"
  shows "filter (\<lambda>r. script_id r \<in> set [ident]) (registered st) = []"
    and "filter (\<lambda>r. script_id r \<notin> set [ident]) (registered st) = registered st"
  using assms by (auto simp: registered_ids_def filter_empty_conv filter_id_conv)

lemma onAdded_registers:
  assumes "''content-script'' \<notin> registered_ids st"
  shows "onAdded \<lparr>origins = [origin]\<rparr> st =
           (st\<lparr>api_calls := api_calls st @ [GetRegistered [''content-script''],
                                                 Register [newScript [origin]]],
               registered := registered st @ [newScript [origin]]\<rparr>,
            Inr ())"
  using assms absent_filters(1) [OF assms]
  by (simp add: onAdded_def getRegisteredContentScripts_def registerContentScripts_def
      first_of_def set_spread_def newScript_def registered_ids_def Let_def)

text \<open>
  C8. From a registry without the companion script, the grant of one origin followed
  by the revocation of the same origin both complete, and leave the registry as it
  was: the companion script is not registered.
\<close>

theorem onAdded_then_onRemoved_absent:
  assumes "''content-script'' \<notin> registered_ids st"
  shows "\<exists>st1 st2. onAdded \<lparr>origins = [origin]\<rparr> st = (st1, Inr ())
           \<and> onRemoved \<lparr>origins = [origin]\<rparr> st1 = (st2, Inr ())
           \<and> registered st2 = registered st
           \<and> ''content-script'' \<notin> registered_ids st2"
proof -
  let ?mid = "st\<lparr>api_calls := api_calls st @ [GetRegistered [''content-script''],
                                                 Register [newScript [origin]]],
               registered := registered st @ [newScript [origin]]\<rparr>"
  have added: "onAdded \<lparr>origins = [origin]\<rparr> st = (?mid, Inr ())"
    by (rule onAdded_registers [OF assms])
  have "filter (\<lambda>r. script_id r \<in> set [''content-script'']) (registered ?mid) = [newScript [origin]]"
    using absent_filters(1) [OF assms] by (simp add: newScript_def)
  then have active: "first_of (snd (getRegisteredContentScripts [''content-script''] ?mid))
      = Some (newScript [origin])"
    by (simp add: getRegisteredContentScripts_def first_of_def)
  have "keep_origins (origins \<lparr>origins = [origin]\<rparr>) (matches (newScript [origin])) = []"
    by (simp add: newScript_def)
  with active have removed: "onRemoved \<lparr>origins = [origin]\<rparr> ?mid =
      (?mid\<lparr>api_calls := api_calls ?mid @ [GetRegistered [''content-script''],
                                                 Unregister [''content-script'']],
             registered := filter (\<lambda>r. script_id r \<notin> set [''content-script'']) (registered ?mid)\<rparr>,
       Inr ())"
    by (intro onRemoved_unregisters) simp_all
  have restored: "filter (\<lambda>r. script_id r \<notin> set [''content-script'']) (registered ?mid) = registered st"
    using absent_filters(2) [OF assms] by (simp add: newScript_def)
  show ?thesis
    using added removed restored assms by (simp add: registered_ids_def)
qed

theorem onAdded_then_onRemoved_absent_witness:
  "''content-script'' \<notin> registered_ids no_registration
   \<and> (\<exists>st1 st2. onAdded \<lparr>origins = [''https://a.com/*'']\<rparr> no_registration = (st1, Inr ())
           \<and> onRemoved \<lparr>origins = [''https://a.com/*'']\<rparr> st1 = (st2, Inr ())
           \<and> registered st2 = []
           \<and> ''content-script'' \<notin> registered_ids st2)"
proof -
  have absent: "''content-script'' \<notin> registered_ids no_registration"
    by (simp add: registered_ids_def no_registration_def)
  have "registered no_registration = []" by (simp add: no_registration_def)
  then show ?thesis
    using onAdded_then_onRemoved_absent [OF absent, of "''https://a.com/*''"] absent
    by simp
qed

end
